theory Spec2Isabelle
  imports Main "HOL-Library.Sublist"
begin

section \<open>The license report generator of create\_license.py\<close>

text \<open>
  The script runs \<^verbatim>\<open>cargo bundle-licenses --format json\<close>, parses its standard output and
  writes the file THIRD\_PARTY\_LIBRARY\_LICENSES, one block per third-party library, with one
  license taken from an ordered list of permissible licenses.

  Python strings are modelled as \<^typ>\<open>string\<close>; only equality and concatenation of strings are
  used by the script. The parsed tool output is taken in the shape the tool documents: an object
  with the key \<^verbatim>\<open>third_party_libraries\<close>, a list of objects with a \<^verbatim>\<open>package_name\<close> and a list
  \<^verbatim>\<open>licenses\<close> of objects with the keys \<^verbatim>\<open>license\<close> and \<^verbatim>\<open>text\<close>, all of them strings. The
  file system is assumed to accept the \<^verbatim>\<open>open\<close> and every \<^verbatim>\<open>write\<close>.
\<close>

subsection \<open>Data\<close>

text \<open>An element of \<^verbatim>\<open>lib['licenses']\<close>; the key \<^verbatim>\<open>text\<close> is the field \<open>text'\<close>.\<close>

record license_entry =
  license :: string
  text' :: string

text \<open>An element of \<^verbatim>\<open>bundle_licenses['third_party_libraries']\<close>.\<close>

record library =
  package_name :: string
  licenses :: "license_entry list"

text \<open>The value of \<^verbatim>\<open>json.loads(result.stdout)\<close>.\<close>

record bundle_licenses =
  third_party_libraries :: "library list"

text \<open>The value returned by \<^verbatim>\<open>subprocess.run\<close> with \<^verbatim>\<open>capture_output=True\<close>.\<close>

record completed_process =
  returncode :: int
  stdout :: string

text \<open>
  What the script can observe and change: the content of THIRD\_PARTY\_LIBRARY\_LICENSES
  (\<open>None\<close> while the file does not exist) and what the script has printed to standard error.
\<close>

record world =
  out_file :: "string option"
  stderr :: string

text \<open>
  The exceptions that leave the script: \<^verbatim>\<open>sys.exit(n)\<close> raises \<open>SystemExit n\<close>;
  \<^verbatim>\<open>subprocess.run(..., check=True)\<close> raises \<open>CalledProcessError\<close> with the return code;
  \<^verbatim>\<open>json.loads\<close> raises \<open>JSONDecodeError\<close>.
\<close>

datatype exn = SystemExit int | CalledProcessError int | JSONDecodeError

text \<open>
  The exit status of the interpreter: 0 when the script runs to its end, the argument of
  \<^verbatim>\<open>sys.exit\<close>, and 1 for any other exception that nothing catches.
\<close>

fun exit_status :: "exn option \<Rightarrow> int" where
  "exit_status None = 0"
| "exit_status (Some (SystemExit n)) = n"
| "exit_status (Some (CalledProcessError n)) = 1"
| "exit_status (Some JSONDecodeError) = 1"

subsection \<open>The script\<close>

text \<open>Line 6: the ordered list of permissible licenses.\<close>

definition permissible_licenses :: "string list" where
  "permissible_licenses = [''MIT'']"

text \<open>\<^verbatim>\<open>open(..., mode='w')\<close> creates the file or truncates it; \<^verbatim>\<open>f.write(x)\<close> appends to it.\<close>

definition open_w :: "world \<Rightarrow> world" where
  "open_w w = w\<lparr>out_file := Some []\<rparr>"

definition f_write :: "string \<Rightarrow> world \<Rightarrow> world" where
  "f_write x w = w\<lparr>out_file := map_option (\<lambda>c. c @ x) (out_file w)\<rparr>"

text \<open>\<^verbatim>\<open>print(x, file=sys.stderr)\<close> writes \<open>x\<close> and a newline.\<close>

definition print_stderr :: "string \<Rightarrow> world \<Rightarrow> world" where
  "print_stderr x w = w\<lparr>stderr := stderr w @ x @ ''\<newline>''\<rparr>"

text \<open>
  Lines 20 to 28: the loop over the permissible licenses \<open>ps\<close>. It returns the values of
  \<^verbatim>\<open>package_license\<close> and \<^verbatim>\<open>license_text\<close> after the loop: both start empty, and the first
  \<open>p\<close> for which the filtered list \<open>l\<close> is not empty sets them from \<open>l[0]\<close> and breaks.
\<close>

fun select_license :: "string list \<Rightarrow> license_entry list \<Rightarrow> string \<times> string" where
  "select_license [] ls = ('''', '''')"
| "select_license (p # ps) ls =
     (case filter (\<lambda>x. license x = p) ls of
        [] \<Rightarrow> select_license ps ls
      | x # _ \<Rightarrow> (license x, text' x))"

text \<open>
  Lines 13 to 35: the loop over the libraries, with the list \<open>ps\<close> of permissible licenses.
  \<open>None\<close> is the loop running to its end.
\<close>

fun write_libraries :: "string list \<Rightarrow> library list \<Rightarrow> world \<Rightarrow> exn option \<times> world" where
  "write_libraries ps [] w = (None, w)"
| "write_libraries ps (lib # libs) w =
     (if length (licenses lib) = 0 then
        (Some (SystemExit 1),
         print_stderr (''Error: '' @ package_name lib @ '' has no licenses'') w)
      else
        (case select_license ps (licenses lib) of (package_license, license_text) \<Rightarrow>
           if package_license = '''' then
             (Some (SystemExit 1),
              print_stderr (''Error: '' @ package_name lib @ '' has no permissible licenses'') w)
           else
             write_libraries ps libs
               (f_write (license_text @ ''\<newline>\<newline>\<newline>'')
                 (f_write (package_license @ ''\<newline>\<newline>'')
                   (f_write (''## '' @ package_name lib @ ''\<newline>\<newline>'') w)))))"

text \<open>Lines 11 to 35: the \<^verbatim>\<open>with\<close> block, on the parsed tool output.\<close>

definition write_report :: "bundle_licenses \<Rightarrow> world \<Rightarrow> exn option \<times> world" where
  "write_report bundle_licenses w =
     write_libraries permissible_licenses (third_party_libraries bundle_licenses)
       (f_write ''# Thiard party library licenses\<newline>\<newline>'' (open_w w))"

text \<open>
  The whole script. \<open>result\<close> is what the external command did, \<open>loads\<close> is \<^verbatim>\<open>json.loads\<close>
  (\<open>None\<close> where it raises), \<open>old\<close> is the output file before the run. Standard error is empty
  when the script starts.
\<close>

definition main :: "(string \<Rightarrow> bundle_licenses option) \<Rightarrow> completed_process \<Rightarrow> string option
    \<Rightarrow> exn option \<times> world" where
  "main loads result old =
     (let w = \<lparr>out_file = old, stderr = ''''\<rparr> in
      if returncode result \<noteq> 0 then (Some (CalledProcessError (returncode result)), w)
      else
        (case loads (stdout result) of
           None \<Rightarrow> (Some JSONDecodeError, w)
         | Some bundle_licenses \<Rightarrow> write_report bundle_licenses w))"

subsection \<open>Notions used to state the properties\<close>

text \<open>The first line that \<open>write_report\<close> writes.\<close>

definition report_header :: string where
  "report_header = ''# Thiard party library licenses\<newline>\<newline>''"

text \<open>
  What the three \<^verbatim>\<open>f.write\<close> calls of one iteration append, for a package name, a license
  identifier and a license text.
\<close>

definition report_block :: "string \<Rightarrow> string \<Rightarrow> string \<Rightarrow> string" where
  "report_block name lic txt =
     ''## '' @ name @ ''\<newline>\<newline>'' @ lic @ ''\<newline>\<newline>'' @ txt @ ''\<newline>\<newline>\<newline>''"

text \<open>The block of a library: its name with the license and the text that the loop selects.\<close>

definition library_block :: "string list \<Rightarrow> library \<Rightarrow> string" where
  "library_block ps lib =
     report_block (package_name lib) (fst (select_license ps (licenses lib)))
       (snd (select_license ps (licenses lib)))"

text \<open>The two checks of one iteration: neither \<^verbatim>\<open>sys.exit(1)\<close> is reached.\<close>

definition accepted :: "string list \<Rightarrow> library \<Rightarrow> bool" where
  "accepted ps lib \<longleftrightarrow>
     licenses lib \<noteq> [] \<and> fst (select_license ps (licenses lib)) \<noteq> []"

text \<open>A library has a license whose identifier equals one of \<open>ps\<close>.\<close>

definition has_license_in :: "string list \<Rightarrow> library \<Rightarrow> bool" where
  "has_license_in ps lib \<longleftrightarrow> (\<exists>e\<in>set (licenses lib). license e \<in> set ps)"

text \<open>For the examples: a \<^verbatim>\<open>json.loads\<close> that reads every output as \<open>b\<close>.\<close>

definition loads_to :: "bundle_licenses \<Rightarrow> string \<Rightarrow> bundle_licenses option" where
  "loads_to b s = Some b"

text \<open>
  For the examples: a tool run that exits with 0, and three libraries, one with an MIT license,
  one with no license and one with a license that is not permissible.
\<close>

definition tool_ok :: completed_process where
  "tool_ok = \<lparr>returncode = 0, stdout = ''{}''\<rparr>"

definition lib_foo :: library where
  "lib_foo = \<lparr>package_name = ''foo'', licenses = [\<lparr>license = ''MIT'', text' = ''MIT TEXT''\<rparr>]\<rparr>"

definition lib_bar :: library where
  "lib_bar = \<lparr>package_name = ''bar'', licenses = []\<rparr>"

definition lib_baz :: library where
  "lib_baz = \<lparr>package_name = ''baz'', licenses = [\<lparr>license = ''GPL-3.0'', text' = ''...''\<rparr>]\<rparr>"

section \<open>Properties\<close>

subsection \<open>The selection loop\<close>

lemma select_license_no_match:
  "\<forall>p\<in>set ps. p \<notin> license ` set ls \<Longrightarrow> select_license ps ls = ([], [])"
proof (induction ps)
  case Nil
  show ?case by simp
next
  case (Cons p ps)
  then have "filter (\<lambda>x. license x = p) ls = []"
    by (auto simp: filter_empty_conv)
  with Cons show ?case by simp
qed

text \<open>
  When some license is permissible, the loop stops at the first permissible identifier that
  occurs, \<open>ps ! i\<close>, and takes identifier and text from the first entry that carries it,
  \<open>ls ! k\<close>.
\<close>

lemma select_license_match:
  assumes "\<exists>e\<in>set ls. license e \<in> set ps"
  shows "\<exists>i k. i < length ps \<and> k < length ls \<and>
           ps ! i \<in> license ` set ls \<and> (\<forall>j<i. ps ! j \<notin> license ` set ls) \<and>
           license (ls ! k) = ps ! i \<and> (\<forall>m<k. license (ls ! m) \<noteq> ps ! i) \<and>
           select_license ps ls = (license (ls ! k), text' (ls ! k))"
  using assms
proof (induction ps)
  case Nil
  then show ?case by simp
next
  case (Cons p ps)
  show ?case
  proof (cases "filter (\<lambda>x. license x = p) ls")
    case Nil
    then have nop: "p \<notin> license ` set ls"
      by (auto simp: filter_empty_conv)
    with Cons.prems have "\<exists>e\<in>set ls. license e \<in> set ps"
      by auto
    from Cons.IH [OF this] obtain i k where ik: "i < length ps" "k < length ls"
      "ps ! i \<in> license ` set ls" "\<forall>j<i. ps ! j \<notin> license ` set ls"
      "license (ls ! k) = ps ! i" "\<forall>m<k. license (ls ! m) \<noteq> ps ! i"
      "select_license ps ls = (license (ls ! k), text' (ls ! k))"
      by blast
    have low: "\<forall>j<Suc i. (p # ps) ! j \<notin> license ` set ls"
      using nop ik(4) by (auto simp: less_Suc_eq_0_disj)
    have "Suc i < length (p # ps)" using ik(1) by simp
    moreover have "select_license (p # ps) ls = (license (ls ! k), text' (ls ! k))"
      using Nil ik(7) by simp
    ultimately show ?thesis
      using ik(2,3,5,6) low
      by (intro exI [of _ "Suc i"] exI [of _ k]) simp
  next
    case (Cons x xs)
    then obtain us vs where dec: "ls = us @ x # vs" "\<forall>u\<in>set us. license u \<noteq> p" "license x = p"
      by (auto simp: filter_eq_Cons_iff)
    have k: "length us < length ls" "ls ! length us = x"
      using dec(1) by simp_all
    have before: "\<forall>m<length us. license (ls ! m) \<noteq> p"
      using dec(1,2) by (simp add: nth_append)
    have "p \<in> license ` set ls"
      using dec(1,3) by force
    moreover have "select_license (p # ps) ls = (license (ls ! length us), text' (ls ! length us))"
      using Cons k(2) by simp
    ultimately show ?thesis
      using k before dec(3)
      by (intro exI [of _ 0] exI [of _ "length us"]) simp
  qed
qed

text \<open>
  With no empty string among the permissible licenses, a library passes both checks exactly
  when one of its licenses is permissible.
\<close>

lemma accepted_iff:
  assumes "'''' \<notin> set ps"
  shows "accepted ps lib \<longleftrightarrow> has_license_in ps lib"
proof (cases "has_license_in ps lib")
  case True
  then have ex: "\<exists>e\<in>set (licenses lib). license e \<in> set ps"
    by (simp add: has_license_in_def)
  from select_license_match [OF ex] obtain i where "i < length ps"
    "fst (select_license ps (licenses lib)) = ps ! i"
    by auto
  then have "fst (select_license ps (licenses lib)) \<in> set ps"
    by simp
  with assms have "fst (select_license ps (licenses lib)) \<noteq> ''''"
    by metis
  moreover from ex have "licenses lib \<noteq> []"
    by auto
  ultimately show ?thesis
    using True by (simp add: accepted_def)
next
  case False
  then have "\<forall>p\<in>set ps. p \<notin> license ` set (licenses lib)"
    by (auto simp: has_license_in_def)
  then have "select_license ps (licenses lib) = ('''', '''')"
    by (rule select_license_no_match)
  with False show ?thesis
    by (simp add: accepted_def)
qed

text \<open>
  An entry that comes after another entry with the same identifier never heads a filtered
  list, so replacing it by an entry with that identifier changes nothing.
\<close>

lemma filter_first_update:
  assumes "m < length ls" "P e = P (ls ! m)" "P (ls ! m) \<longrightarrow> (\<exists>k<m. P (ls ! k))"
  shows "(case filter P (ls[m := e]) of [] \<Rightarrow> a | x # _ \<Rightarrow> f x) =
         (case filter P ls of [] \<Rightarrow> a | x # _ \<Rightarrow> f x)"
  using assms
proof (induction ls arbitrary: m)
  case Nil
  then show ?case by simp
next
  case (Cons y ys)
  show ?case
  proof (cases m)
    case 0
    with Cons.prems show ?thesis by simp
  next
    case (Suc n)
    show ?thesis
    proof (cases "P y")
      case True
      then show ?thesis using Suc by simp
    next
      case False
      have n: "n < length ys" "P e = P (ys ! n)"
        using Cons.prems(1,2) Suc by simp_all
      have "P (ys ! n) \<longrightarrow> (\<exists>k<n. P (ys ! k))"
      proof
        assume "P (ys ! n)"
        with Cons.prems(3) Suc obtain k where k: "k < Suc n" "P ((y # ys) ! k)"
          by auto
        with False obtain k' where "k = Suc k'"
          by (cases k) auto
        with k show "\<exists>k<n. P (ys ! k)" by auto
      qed
      from Cons.IH [OF n this] False Suc show ?thesis by simp
    qed
  qed
qed

lemma select_license_later_duplicate:
  assumes "k < m" "m < length ls" "license (ls ! k) = license (ls ! m)"
    and "license e = license (ls ! m)"
  shows "select_license ps (ls[m := e]) = select_license ps ls"
proof (induction ps)
  case Nil
  show ?case by simp
next
  case (Cons p ps)
  have "license e = p \<longleftrightarrow> license (ls ! m) = p"
    using assms(4) by simp
  moreover have "license (ls ! m) = p \<longrightarrow> (\<exists>k<m. license (ls ! k) = p)"
    using assms(1,3) by auto
  ultimately have "(case filter (\<lambda>x. license x = p) (ls[m := e]) of
        [] \<Rightarrow> select_license ps ls | x # _ \<Rightarrow> (license x, text' x)) =
      (case filter (\<lambda>x. license x = p) ls of
        [] \<Rightarrow> select_license ps ls | x # _ \<Rightarrow> (license x, text' x))"
    using assms(2) by (intro filter_first_update) simp_all
  with Cons show ?case by (simp cong: list.case_cong)
qed

text \<open>A selected license is one of the permissible ones.\<close>

lemma select_license_in_list:
  assumes "has_license_in ps lib"
  shows "fst (select_license ps (licenses lib)) \<in> set ps"
proof -
  from assms have "\<exists>e\<in>set (licenses lib). license e \<in> set ps"
    by (simp add: has_license_in_def)
  from select_license_match [OF this] obtain i where "i < length ps"
    "fst (select_license ps (licenses lib)) = ps ! i"
    by auto
  then show ?thesis by simp
qed

subsection \<open>The loop over the libraries\<close>

lemma f_write_f_write:
  "f_write b (f_write a w) = f_write (a @ b) w"
  by (simp add: f_write_def option.map_comp o_def)

lemma f_write_Nil: "f_write [] w = w"
  by (simp add: f_write_def option.map_ident)

lemma write_libraries_step:
  "accepted ps lib \<Longrightarrow>
   write_libraries ps (lib # libs) w = write_libraries ps libs (f_write (library_block ps lib) w)"
  by (cases "select_license ps (licenses lib)")
    (simp add: accepted_def library_block_def report_block_def f_write_f_write)

lemma write_libraries_accepted:
  "\<forall>lib\<in>set pre. accepted ps lib \<Longrightarrow>
   write_libraries ps (pre @ rest) w =
     write_libraries ps rest (f_write (concat (map (library_block ps) pre)) w)"
proof (induction pre arbitrary: w)
  case Nil
  show ?case by (simp add: f_write_Nil)
next
  case (Cons lib pre)
  then have "accepted ps lib" "\<forall>x\<in>set pre. accepted ps x"
    by simp_all
  then show ?case
    using Cons.IH [of "f_write (library_block ps lib) w"]
    by (simp add: write_libraries_step f_write_f_write del: write_libraries.simps)
qed

lemma write_libraries_no_licenses:
  "licenses lib = [] \<Longrightarrow>
   write_libraries ps (lib # libs) w =
     (Some (SystemExit 1),
      print_stderr (''Error: '' @ package_name lib @ '' has no licenses'') w)"
  by simp

lemma write_libraries_no_permissible:
  "licenses lib \<noteq> [] \<Longrightarrow> fst (select_license ps (licenses lib)) = '''' \<Longrightarrow>
   write_libraries ps (lib # libs) w =
     (Some (SystemExit 1),
      print_stderr (''Error: '' @ package_name lib @ '' has no permissible licenses'') w)"
  by (cases "select_license ps (licenses lib)") simp

text \<open>The list of line 6 holds no empty string.\<close>

lemma permissible_licenses_nonempty: "[] \<notin> set permissible_licenses"
  by (simp add: permissible_licenses_def)

lemma accepted_permissible:
  "accepted permissible_licenses lib \<longleftrightarrow> has_license_in permissible_licenses lib"
  by (rule accepted_iff [OF permissible_licenses_nonempty])

lemma first_violation:
  assumes "\<not> (\<forall>x\<in>set xs. P x)"
  shows "\<exists>i<length xs. \<not> P (xs ! i) \<and> (\<forall>j<i. P (xs ! j))"
proof -
  from assms have "\<exists>x\<in>set xs. \<not> P x" by simp
  then obtain ys x zs where dec: "xs = ys @ x # zs" "\<not> P x" "\<forall>y\<in>set ys. \<not> \<not> P y"
    by (rule split_list_first_propE)
  have "length ys < length xs" "xs ! length ys = x"
    using dec(1) by simp_all
  moreover have "\<forall>j<length ys. P (xs ! j)"
    using dec(1,3) by (simp add: nth_append)
  ultimately show ?thesis
    using dec(2) by blast
qed

subsection \<open>The whole script on a parsed tool output\<close>

lemma main_parsed:
  "returncode result = 0 \<Longrightarrow> loads (stdout result) = Some b \<Longrightarrow>
   main loads result old = write_report b \<lparr>out_file = old, stderr = []\<rparr>"
  by (simp add: main_def)

lemma write_report_prefix:
  assumes "\<forall>lib\<in>set pre. has_license_in permissible_licenses lib"
  shows "write_report \<lparr>third_party_libraries = pre @ rest\<rparr> \<lparr>out_file = old, stderr = e\<rparr> =
     write_libraries permissible_licenses rest
       \<lparr>out_file = Some (report_header @ concat (map (library_block permissible_licenses) pre)),
        stderr = e\<rparr>"
proof -
  from assms have "\<forall>lib\<in>set pre. accepted permissible_licenses lib"
    by (simp add: accepted_permissible)
  then show ?thesis
    by (simp add: write_report_def write_libraries_accepted f_write_f_write)
      (simp add: f_write_def open_w_def report_header_def)
qed

lemma take_all_nth:
  "i \<le> length xs \<Longrightarrow> \<forall>j<i. P (xs ! j) \<Longrightarrow> \<forall>x\<in>set (take i xs). P x"
  by (auto simp: in_set_conv_nth)

lemma main_all_permissible:
  assumes "returncode result = 0" "loads (stdout result) = Some \<lparr>third_party_libraries = libs\<rparr>"
    and "\<forall>lib\<in>set libs. has_license_in permissible_licenses lib"
  shows "main loads result old =
     (None, \<lparr>out_file = Some (report_header @ concat (map (library_block permissible_licenses) libs)),
             stderr = []\<rparr>)"
  using write_report_prefix [OF assms(3), of "[]" old "[]"]
  by (simp add: main_parsed [of result loads, OF assms(1,2)])

lemma main_no_licenses:
  assumes "returncode result = 0" "loads (stdout result) = Some \<lparr>third_party_libraries = libs\<rparr>"
    and "i < length libs" "\<forall>j<i. has_license_in permissible_licenses (libs ! j)"
    and "licenses (libs ! i) = []"
  shows "main loads result old =
     (Some (SystemExit 1),
      \<lparr>out_file = Some (report_header @ concat (map (library_block permissible_licenses) (take i libs))),
       stderr = ''Error: '' @ package_name (libs ! i) @ '' has no licenses\<newline>''\<rparr>)"
proof -
  have dec: "libs = take i libs @ libs ! i # drop (Suc i) libs"
    using assms(3) by (rule id_take_nth_drop)
  have pre: "\<forall>lib\<in>set (take i libs). has_license_in permissible_licenses lib"
    using assms(3,4) by (intro take_all_nth) simp_all
  have "main loads result old =
      write_report \<lparr>third_party_libraries = take i libs @ libs ! i # drop (Suc i) libs\<rparr>
        \<lparr>out_file = old, stderr = []\<rparr>"
    using main_parsed [of result loads, OF assms(1,2)] dec by simp
  also have "\<dots> = write_libraries permissible_licenses (libs ! i # drop (Suc i) libs)
       \<lparr>out_file = Some (report_header @ concat (map (library_block permissible_licenses) (take i libs))),
        stderr = []\<rparr>"
    by (rule write_report_prefix [OF pre])
  also have "\<dots> = (Some (SystemExit 1),
      \<lparr>out_file = Some (report_header @ concat (map (library_block permissible_licenses) (take i libs))),
       stderr = ''Error: '' @ package_name (libs ! i) @ '' has no licenses\<newline>''\<rparr>)"
    by (simp add: write_libraries_no_licenses [OF assms(5)] print_stderr_def
        del: write_libraries.simps)
  finally show ?thesis .
qed

lemma main_no_permissible:
  assumes "returncode result = 0" "loads (stdout result) = Some \<lparr>third_party_libraries = libs\<rparr>"
    and "i < length libs" "\<forall>j<i. has_license_in permissible_licenses (libs ! j)"
    and "licenses (libs ! i) \<noteq> []" "\<not> has_license_in permissible_licenses (libs ! i)"
  shows "main loads result old =
     (Some (SystemExit 1),
      \<lparr>out_file = Some (report_header @ concat (map (library_block permissible_licenses) (take i libs))),
       stderr = ''Error: '' @ package_name (libs ! i) @ '' has no permissible licenses\<newline>''\<rparr>)"
proof -
  have dec: "libs = take i libs @ libs ! i # drop (Suc i) libs"
    using assms(3) by (rule id_take_nth_drop)
  have pre: "\<forall>lib\<in>set (take i libs). has_license_in permissible_licenses lib"
    using assms(3,4) by (intro take_all_nth) simp_all
  have sel: "fst (select_license permissible_licenses (licenses (libs ! i))) = []"
    using assms(5,6) accepted_permissible [of "libs ! i"] by (simp add: accepted_def)
  have "main loads result old =
      write_report \<lparr>third_party_libraries = take i libs @ libs ! i # drop (Suc i) libs\<rparr>
        \<lparr>out_file = old, stderr = []\<rparr>"
    using main_parsed [of result loads, OF assms(1,2)] dec by simp
  also have "\<dots> = write_libraries permissible_licenses (libs ! i # drop (Suc i) libs)
       \<lparr>out_file = Some (report_header @ concat (map (library_block permissible_licenses) (take i libs))),
        stderr = []\<rparr>"
    by (rule write_report_prefix [OF pre])
  also have "\<dots> = (Some (SystemExit 1),
      \<lparr>out_file = Some (report_header @ concat (map (library_block permissible_licenses) (take i libs))),
       stderr = ''Error: '' @ package_name (libs ! i) @ '' has no permissible licenses\<newline>''\<rparr>)"
    by (simp add: write_libraries_no_permissible [OF assms(5) sel] print_stderr_def
        del: write_libraries.simps)
  finally show ?thesis .
qed

text \<open>The run that stops at the first library that has no permissible license.\<close>

lemma main_rejected:
  assumes "returncode result = 0" "loads (stdout result) = Some \<lparr>third_party_libraries = libs\<rparr>"
    and "i < length libs" "\<forall>j<i. has_license_in permissible_licenses (libs ! j)"
    and "\<not> has_license_in permissible_licenses (libs ! i)"
  shows "fst (main loads result old) = Some (SystemExit 1)"
    and "out_file (snd (main loads result old)) =
           Some (report_header @ concat (map (library_block permissible_licenses) (take i libs)))"
proof -
  have "fst (main loads result old) = Some (SystemExit 1) \<and>
      out_file (snd (main loads result old)) =
        Some (report_header @ concat (map (library_block permissible_licenses) (take i libs)))"
  proof (cases "licenses (libs ! i) = []")
    case True
    from main_no_licenses [of result loads, OF assms(1-4) True, of old]
    show ?thesis by simp
  next
    case False
    from main_no_permissible [of result loads, OF assms(1-4) False assms(5), of old]
    show ?thesis by simp
  qed
  then show "fst (main loads result old) = Some (SystemExit 1)"
    and "out_file (snd (main loads result old)) =
           Some (report_header @ concat (map (library_block permissible_licenses) (take i libs)))"
    by simp_all
qed

lemma main_exit_0:
  assumes "returncode result = 0" "loads (stdout result) = Some \<lparr>third_party_libraries = libs\<rparr>"
    and "exit_status (fst (main loads result old)) = 0"
  shows "\<forall>lib\<in>set libs. has_license_in permissible_licenses lib"
proof (rule ccontr)
  assume "\<not> (\<forall>lib\<in>set libs. has_license_in permissible_licenses lib)"
  from first_violation [OF this] obtain i where i: "i < length libs"
    "\<not> has_license_in permissible_licenses (libs ! i)"
    "\<forall>j<i. has_license_in permissible_licenses (libs ! j)"
    by blast
  from main_rejected(1) [of result loads, OF assms(1,2) i(1,3,2), of old] assms(3)
  show False by simp
qed

section \<open>The claims\<close>

text \<open>
  C1. For a library with at least one license whose identifier equals (as a string, case and
  all) a permissible one, the loop of lines 20 to 28 leaves in \<^verbatim>\<open>package_license\<close> the
  permissible identifier of the lowest index in the permissible list among those that occur in
  the library's licenses. The choice is the same for every license list with the same entries,
  so for every reordering of the library's own list. The theorem holds for every permissible
  list \<open>ps\<close>, the one of line 6 included; the selected identifier is the one the block of the
  library carries (\<open>library_block\<close>).
\<close>

theorem select_license_lowest_index:
  assumes "\<exists>e\<in>set ls. license e \<in> set ps"
  shows "(\<exists>i<length ps. fst (select_license ps ls) = ps ! i \<and> ps ! i \<in> license ` set ls \<and>
            (\<forall>j<i. ps ! j \<notin> license ` set ls)) \<and>
         (\<forall>ls'. set ls' = set ls \<longrightarrow> fst (select_license ps ls') = fst (select_license ps ls))"
proof -
  from select_license_match [OF assms] obtain i where i: "i < length ps"
    "ps ! i \<in> license ` set ls" "\<forall>j<i. ps ! j \<notin> license ` set ls"
    "fst (select_license ps ls) = ps ! i"
    by auto
  have "fst (select_license ps ls') = fst (select_license ps ls)" if eq: "set ls' = set ls" for ls'
  proof -
    from assms eq have "\<exists>e\<in>set ls'. license e \<in> set ps"
      by simp
    from select_license_match [OF this] eq obtain i' where i': "i' < length ps"
      "ps ! i' \<in> license ` set ls" "\<forall>j<i'. ps ! j \<notin> license ` set ls"
      "fst (select_license ps ls') = ps ! i'"
      by auto
    have "\<not> i < i'" using i(2) i'(3) by blast
    moreover have "\<not> i' < i" using i'(2) i(3) by blast
    ultimately have "i' = i" by simp
    with i(4) i'(4) show ?thesis by simp
  qed
  with i show ?thesis by blast
qed

text \<open>The list of scenario D: both licenses present, MIT listed first by the library.\<close>

theorem select_license_lowest_index_witness:
  "(\<exists>e\<in>set [\<lparr>license = ''MIT'', text' = ''m''\<rparr>, \<lparr>license = ''Apache-2.0'', text' = ''a''\<rparr>].
      license e \<in> set [''Apache-2.0'', ''MIT'']) \<and>
   fst (select_license [''Apache-2.0'', ''MIT'']
     [\<lparr>license = ''MIT'', text' = ''m''\<rparr>, \<lparr>license = ''Apache-2.0'', text' = ''a''\<rparr>])
     = ''Apache-2.0'' \<and>
   fst (select_license [''Apache-2.0'', ''MIT'']
     [\<lparr>license = ''Apache-2.0'', text' = ''a''\<rparr>, \<lparr>license = ''MIT'', text' = ''m''\<rparr>])
     = ''Apache-2.0''"
proof -
  have h: "\<exists>e\<in>set [\<lparr>license = ''MIT'', text' = ''m''\<rparr>, \<lparr>license = ''Apache-2.0'', text' = ''a''\<rparr>].
      license e \<in> set [''Apache-2.0'', ''MIT'']"
    by simp
  show ?thesis
    using h select_license_lowest_index [OF h] by simp
qed

text \<open>
  C2. Whatever the libraries are, the output file holds the header and the blocks of the first
  \<open>n\<close> libraries, and the one license of each of these blocks is a permissible one. When every
  library has a permissible license, \<open>n\<close> is the number of libraries and the exit status is 0.
  When some library has none, the exit status is 1 and the report is not completed: the first
  such library is at index \<open>n\<close>, and neither it nor a later one has a block.
\<close>

theorem main_report_entries_permissible:
  assumes "returncode result = 0" "loads (stdout result) = Some \<lparr>third_party_libraries = libs\<rparr>"
  shows "\<exists>n\<le>length libs.
           out_file (snd (main loads result old)) =
             Some (report_header @ concat (map (library_block permissible_licenses) (take n libs))) \<and>
           (\<forall>lib\<in>set (take n libs).
              fst (select_license permissible_licenses (licenses lib)) \<in> set permissible_licenses) \<and>
           (if \<forall>lib\<in>set libs. has_license_in permissible_licenses lib
            then n = length libs \<and> exit_status (fst (main loads result old)) = 0
            else n < length libs \<and> \<not> has_license_in permissible_licenses (libs ! n) \<and>
              exit_status (fst (main loads result old)) = 1)"
proof (cases "\<forall>lib\<in>set libs. has_license_in permissible_licenses lib")
  case True
  from main_all_permissible [of result loads, OF assms True, of old]
  have "out_file (snd (main loads result old)) =
      Some (report_header @ concat (map (library_block permissible_licenses) (take (length libs) libs)))"
    and "exit_status (fst (main loads result old)) = 0"
    by simp_all
  moreover have "\<forall>lib\<in>set (take (length libs) libs).
      fst (select_license permissible_licenses (licenses lib)) \<in> set permissible_licenses"
    using True by (simp add: select_license_in_list)
  ultimately show ?thesis
    using True by (intro exI [of _ "length libs"]) simp
next
  case False
  from first_violation [OF this] obtain i where i: "i < length libs"
    "\<not> has_license_in permissible_licenses (libs ! i)"
    "\<forall>j<i. has_license_in permissible_licenses (libs ! j)"
    by blast
  have "\<forall>lib\<in>set (take i libs). has_license_in permissible_licenses lib"
    using i(1,3) by (intro take_all_nth) simp_all
  then have "\<forall>lib\<in>set (take i libs).
      fst (select_license permissible_licenses (licenses lib)) \<in> set permissible_licenses"
    by (simp add: select_license_in_list)
  moreover from main_rejected [of result loads, OF assms i(1,3,2), of old]
  have "out_file (snd (main loads result old)) =
      Some (report_header @ concat (map (library_block permissible_licenses) (take i libs)))"
    and "exit_status (fst (main loads result old)) = 1"
    by simp_all
  ultimately show ?thesis
    using False i(1,2) by (intro exI [of _ i]) simp
qed

text \<open>Scenario C after a library with an MIT license.\<close>

theorem main_report_entries_permissible_witness:
  "returncode tool_ok = 0 \<and>
   \<not> has_license_in permissible_licenses lib_baz \<and>
   exit_status (fst (main (loads_to \<lparr>third_party_libraries = [lib_foo, lib_baz]\<rparr>) tool_ok None)) = 1 \<and>
   out_file (snd (main (loads_to \<lparr>third_party_libraries = [lib_foo, lib_baz]\<rparr>) tool_ok None)) =
     Some (report_header @ report_block ''foo'' ''MIT'' ''MIT TEXT'')"
proof -
  let ?libs = "[lib_foo, lib_baz]"
  have h: "returncode tool_ok = 0"
    "loads_to \<lparr>third_party_libraries = ?libs\<rparr> (stdout tool_ok) =
       Some \<lparr>third_party_libraries = ?libs\<rparr>"
    by (simp_all add: loads_to_def tool_ok_def)
  show ?thesis
    using h main_report_entries_permissible [where loads = "loads_to \<lparr>third_party_libraries = ?libs\<rparr>"
        and result = tool_ok and old = None, OF h]
    by (simp add: loads_to_def tool_ok_def lib_foo_def lib_baz_def main_def write_report_def
        permissible_licenses_def f_write_def open_w_def report_header_def report_block_def
        print_stderr_def has_license_in_def)
qed

text \<open>
  C3, amended. When a library has an empty license list and every library before it has a
  permissible license, the script prints \<^verbatim>\<open>Error: <package_name> has no licenses\<close> with the name
  of that library, as the only line on standard error, and exits with status 1. No later
  library is processed: the run is the run on the list cut after this library, and the file
  holds the blocks of the libraries before it.
\<close>

theorem main_no_licenses_exit:
  assumes "returncode result = 0" "loads (stdout result) = Some \<lparr>third_party_libraries = libs\<rparr>"
    and "i < length libs"
    and "licenses (libs ! i) = []"
    and "\<forall>j<i. has_license_in permissible_licenses (libs ! j)"
  shows "main loads result old =
           (Some (SystemExit 1),
            \<lparr>out_file = Some (report_header @
               concat (map (library_block permissible_licenses) (take i libs))),
             stderr = ''Error: '' @ package_name (libs ! i) @ '' has no licenses\<newline>''\<rparr>) \<and>
         exit_status (fst (main loads result old)) = 1 \<and>
         main loads result old =
           write_report \<lparr>third_party_libraries = take (Suc i) libs\<rparr> \<lparr>out_file = old, stderr = []\<rparr>"
proof -
  let ?cut = "take (Suc i) libs"
  have run: "main loads result old =
      (Some (SystemExit 1),
       \<lparr>out_file = Some (report_header @
          concat (map (library_block permissible_licenses) (take i libs))),
        stderr = ''Error: '' @ package_name (libs ! i) @ '' has no licenses\<newline>''\<rparr>)"
    by (rule main_no_licenses [of result loads, OF assms(1-3,5,4)])
  have h1: "returncode tool_ok = 0"
    by (simp add: tool_ok_def)
  have h2: "loads_to \<lparr>third_party_libraries = ?cut\<rparr> (stdout tool_ok) =
      Some \<lparr>third_party_libraries = ?cut\<rparr>"
    by (simp add: loads_to_def)
  have i': "i < length ?cut"
    using assms(3) by simp
  have pre': "\<forall>j<i. has_license_in permissible_licenses (?cut ! j)"
    using assms(5) by simp
  have emp': "licenses (?cut ! i) = []"
    using assms(4) by simp
  have "write_report \<lparr>third_party_libraries = ?cut\<rparr> \<lparr>out_file = old, stderr = []\<rparr> =
      main (loads_to \<lparr>third_party_libraries = ?cut\<rparr>) tool_ok old"
    by (rule main_parsed [of tool_ok "loads_to \<lparr>third_party_libraries = ?cut\<rparr>", OF h1 h2, symmetric])
  also have "\<dots> = (Some (SystemExit 1),
       \<lparr>out_file = Some (report_header @
          concat (map (library_block permissible_licenses) (take i ?cut))),
        stderr = ''Error: '' @ package_name (?cut ! i) @ '' has no licenses\<newline>''\<rparr>)"
    by (rule main_no_licenses [of tool_ok "loads_to \<lparr>third_party_libraries = ?cut\<rparr>", OF h1 h2 i' pre' emp'])
  also have "\<dots> = main loads result old"
    using run by (simp add: min_def)
  finally show ?thesis
    using run by simp
qed

text \<open>Scenario B after a library with an MIT license and before another library.\<close>

theorem main_no_licenses_exit_witness:
  "returncode tool_ok = 0 \<and> licenses ([lib_foo, lib_bar, lib_baz] ! 1) = [] \<and>
   has_license_in permissible_licenses ([lib_foo, lib_bar, lib_baz] ! 0) \<and>
   main (loads_to \<lparr>third_party_libraries = [lib_foo, lib_bar, lib_baz]\<rparr>) tool_ok (Some ''old report'') =
     (Some (SystemExit 1),
      \<lparr>out_file = Some (report_header @ report_block ''foo'' ''MIT'' ''MIT TEXT''),
       stderr = ''Error: bar has no licenses\<newline>''\<rparr>)"
proof -
  let ?libs = "[lib_foo, lib_bar, lib_baz]"
  have h: "returncode tool_ok = 0"
    "loads_to \<lparr>third_party_libraries = ?libs\<rparr> (stdout tool_ok) =
       Some \<lparr>third_party_libraries = ?libs\<rparr>"
    "(1::nat) < length ?libs"
    "licenses (?libs ! 1) = []"
    "\<forall>j<1::nat. has_license_in permissible_licenses (?libs ! j)"
    by (simp_all add: loads_to_def tool_ok_def lib_foo_def lib_bar_def lib_baz_def main_def write_report_def
        permissible_licenses_def f_write_def open_w_def report_header_def report_block_def
        library_block_def print_stderr_def has_license_in_def)
  show ?thesis
    using h main_no_licenses_exit [where loads = "loads_to \<lparr>third_party_libraries = ?libs\<rparr>"
        and result = tool_ok and i = 1 and old = "Some ''old report''", OF h]
    by (simp add: loads_to_def tool_ok_def lib_foo_def lib_bar_def lib_baz_def main_def write_report_def
        permissible_licenses_def f_write_def open_w_def report_header_def report_block_def
        library_block_def print_stderr_def has_license_in_def)
qed

text \<open>
  C3 as stated, for any library with an empty license list, fails: in the input \<open>baz\<close>
  (GPL-3.0 only), \<open>bar\<close> (no license) the library \<open>bar\<close> has an empty license list, but the
  script stops at \<open>baz\<close>, and the line for \<open>bar\<close> is nowhere on standard error.
\<close>

theorem no_licenses_counterexample:
  "licenses ([lib_baz, lib_bar] ! 1) = [] \<and>
   main (loads_to \<lparr>third_party_libraries = [lib_baz, lib_bar]\<rparr>) tool_ok None =
     (Some (SystemExit 1),
      \<lparr>out_file = Some report_header, stderr = ''Error: baz has no permissible licenses\<newline>''\<rparr>) \<and>
   \<not> sublist (''Error: '' @ package_name ([lib_baz, lib_bar] ! 1) @ '' has no licenses'')
     (stderr (snd (main (loads_to \<lparr>third_party_libraries = [lib_baz, lib_bar]\<rparr>) tool_ok None)))"
  by (simp add: loads_to_def tool_ok_def lib_foo_def lib_bar_def lib_baz_def main_def write_report_def
        permissible_licenses_def f_write_def open_w_def report_header_def report_block_def
        library_block_def print_stderr_def has_license_in_def sublist_code)

text \<open>
  C4, amended. When a library has licenses but none with a permissible identifier, and every
  library before it has a permissible license, the script prints
  \<^verbatim>\<open>Error: <package_name> has no permissible licenses\<close> with the name of that library, as the
  only line on standard error, and exits with status 1. No later library is processed: the
  run is the run on the list cut after this library, and the file holds the blocks of the
  libraries before it.
\<close>

theorem main_no_permissible_exit:
  assumes "returncode result = 0" "loads (stdout result) = Some \<lparr>third_party_libraries = libs\<rparr>"
    and "i < length libs"
    and "licenses (libs ! i) \<noteq> []"
    and "\<forall>e\<in>set (licenses (libs ! i)). license e \<notin> set permissible_licenses"
    and "\<forall>j<i. has_license_in permissible_licenses (libs ! j)"
  shows "main loads result old =
           (Some (SystemExit 1),
            \<lparr>out_file = Some (report_header @
               concat (map (library_block permissible_licenses) (take i libs))),
             stderr = ''Error: '' @ package_name (libs ! i) @ '' has no permissible licenses\<newline>''\<rparr>) \<and>
         exit_status (fst (main loads result old)) = 1 \<and>
         main loads result old =
           write_report \<lparr>third_party_libraries = take (Suc i) libs\<rparr> \<lparr>out_file = old, stderr = []\<rparr>"
proof -
  let ?cut = "take (Suc i) libs"
  have nop: "\<not> has_license_in permissible_licenses (libs ! i)"
    using assms(5) by (simp add: has_license_in_def)
  have run: "main loads result old =
      (Some (SystemExit 1),
       \<lparr>out_file = Some (report_header @
          concat (map (library_block permissible_licenses) (take i libs))),
        stderr = ''Error: '' @ package_name (libs ! i) @ '' has no permissible licenses\<newline>''\<rparr>)"
    by (rule main_no_permissible [of result loads, OF assms(1-3,6,4) nop])
  have h1: "returncode tool_ok = 0"
    by (simp add: tool_ok_def)
  have h2: "loads_to \<lparr>third_party_libraries = ?cut\<rparr> (stdout tool_ok) =
      Some \<lparr>third_party_libraries = ?cut\<rparr>"
    by (simp add: loads_to_def)
  have i': "i < length ?cut"
    using assms(3) by simp
  have pre': "\<forall>j<i. has_license_in permissible_licenses (?cut ! j)"
    using assms(6) by simp
  have emp': "licenses (?cut ! i) \<noteq> []"
    using assms(4) by simp
  have nop': "\<not> has_license_in permissible_licenses (?cut ! i)"
    using nop by simp
  have "write_report \<lparr>third_party_libraries = ?cut\<rparr> \<lparr>out_file = old, stderr = []\<rparr> =
      main (loads_to \<lparr>third_party_libraries = ?cut\<rparr>) tool_ok old"
    by (rule main_parsed [of tool_ok "loads_to \<lparr>third_party_libraries = ?cut\<rparr>", OF h1 h2, symmetric])
  also have "\<dots> = (Some (SystemExit 1),
       \<lparr>out_file = Some (report_header @
          concat (map (library_block permissible_licenses) (take i ?cut))),
        stderr = ''Error: '' @ package_name (?cut ! i) @ '' has no permissible licenses\<newline>''\<rparr>)"
    by (rule main_no_permissible [of tool_ok "loads_to \<lparr>third_party_libraries = ?cut\<rparr>",
          OF h1 h2 i' pre' emp' nop'])
  also have "\<dots> = main loads result old"
    using run by (simp add: min_def)
  finally show ?thesis
    using run by simp
qed

text \<open>Scenario C after a library with an MIT license and before another library.\<close>

theorem main_no_permissible_exit_witness:
  "returncode tool_ok = 0 \<and> licenses ([lib_foo, lib_baz, lib_bar] ! 1) \<noteq> [] \<and>
   \<not> has_license_in permissible_licenses ([lib_foo, lib_baz, lib_bar] ! 1) \<and>
   has_license_in permissible_licenses ([lib_foo, lib_baz, lib_bar] ! 0) \<and>
   main (loads_to \<lparr>third_party_libraries = [lib_foo, lib_baz, lib_bar]\<rparr>) tool_ok (Some ''old report'') =
     (Some (SystemExit 1),
      \<lparr>out_file = Some (report_header @ report_block ''foo'' ''MIT'' ''MIT TEXT''),
       stderr = ''Error: baz has no permissible licenses\<newline>''\<rparr>)"
proof -
  let ?libs = "[lib_foo, lib_baz, lib_bar]"
  have h: "returncode tool_ok = 0"
    "loads_to \<lparr>third_party_libraries = ?libs\<rparr> (stdout tool_ok) =
       Some \<lparr>third_party_libraries = ?libs\<rparr>"
    "(1::nat) < length ?libs"
    "licenses (?libs ! 1) \<noteq> []"
    "\<forall>e\<in>set (licenses (?libs ! 1)). license e \<notin> set permissible_licenses"
    "\<forall>j<1::nat. has_license_in permissible_licenses (?libs ! j)"
    by (simp_all add: loads_to_def tool_ok_def lib_foo_def lib_bar_def lib_baz_def main_def write_report_def
        permissible_licenses_def f_write_def open_w_def report_header_def report_block_def
        library_block_def print_stderr_def has_license_in_def)
  show ?thesis
    using h main_no_permissible_exit [where loads = "loads_to \<lparr>third_party_libraries = ?libs\<rparr>"
        and result = tool_ok and i = 1 and old = "Some ''old report''", OF h]
    by (simp add: loads_to_def tool_ok_def lib_foo_def lib_bar_def lib_baz_def main_def write_report_def
        permissible_licenses_def f_write_def open_w_def report_header_def report_block_def
        library_block_def print_stderr_def has_license_in_def)
qed

text \<open>
  C4 as stated, for any library with licenses none of which is permissible, fails: in the input
  \<open>bar\<close> (no license), \<open>baz\<close> (GPL-3.0 only) the script stops at \<open>bar\<close>, and the line for
  \<open>baz\<close> is nowhere on standard error.
\<close>

theorem no_permissible_counterexample:
  "licenses ([lib_bar, lib_baz] ! 1) \<noteq> [] \<and>
   \<not> has_license_in permissible_licenses ([lib_bar, lib_baz] ! 1) \<and>
   main (loads_to \<lparr>third_party_libraries = [lib_bar, lib_baz]\<rparr>) tool_ok None =
     (Some (SystemExit 1),
      \<lparr>out_file = Some report_header, stderr = ''Error: bar has no licenses\<newline>''\<rparr>) \<and>
   \<not> sublist (''Error: '' @ package_name ([lib_bar, lib_baz] ! 1) @ '' has no permissible licenses'')
     (stderr (snd (main (loads_to \<lparr>third_party_libraries = [lib_bar, lib_baz]\<rparr>) tool_ok None)))"
  by (simp add: loads_to_def tool_ok_def lib_foo_def lib_bar_def lib_baz_def main_def write_report_def
        permissible_licenses_def f_write_def open_w_def report_header_def report_block_def
        library_block_def print_stderr_def has_license_in_def sublist_code)

text \<open>
  C5. When the external command exits with a status other than 0, or \<^verbatim>\<open>json.loads\<close> cannot
  parse its output, the exception (\<open>CalledProcessError\<close>, \<open>JSONDecodeError\<close>) leaves the script:
  the exit status is 1, the output file is as it was before the run (neither created nor
  truncated nor written) and the script has printed nothing, so no library was processed.
\<close>

theorem main_tool_failure:
  assumes "returncode result \<noteq> 0 \<or> loads (stdout result) = None"
  shows "fst (main loads result old) =
           Some (if returncode result \<noteq> 0 then CalledProcessError (returncode result)
                 else JSONDecodeError) \<and>
         exit_status (fst (main loads result old)) = 1 \<and>
         snd (main loads result old) = \<lparr>out_file = old, stderr = []\<rparr>"
  using assms by (auto simp: main_def)

text \<open>A command that exits with 101, and an output that does not parse.\<close>

theorem main_tool_failure_witness:
  "main (loads_to \<lparr>third_party_libraries = []\<rparr>)
     \<lparr>returncode = 101, stdout = ''error: no such command''\<rparr> (Some ''old report'') =
     (Some (CalledProcessError 101), \<lparr>out_file = Some ''old report'', stderr = []\<rparr>) \<and>
   main Map.empty \<lparr>returncode = 0, stdout = ''not json''\<rparr> None =
     (Some JSONDecodeError, \<lparr>out_file = None, stderr = []\<rparr>)"
proof -
  have h1: "returncode \<lparr>returncode = 101, stdout = ''error: no such command''\<rparr> \<noteq> 0 \<or>
      loads_to \<lparr>third_party_libraries = []\<rparr>
        (stdout \<lparr>returncode = 101, stdout = ''error: no such command''\<rparr>) = None"
    by simp
  have h2: "returncode \<lparr>returncode = 0, stdout = ''not json''\<rparr> \<noteq> 0 \<or>
      Map.empty (stdout \<lparr>returncode = 0, stdout = ''not json''\<rparr>) = (None :: bundle_licenses option)"
    by simp
  show ?thesis
    using
      main_tool_failure [where result = "\<lparr>returncode = 101, stdout = ''error: no such command''\<rparr>"
        and loads = "loads_to \<lparr>third_party_libraries = []\<rparr>" and old = "Some ''old report''", OF h1]
      main_tool_failure [where result = "\<lparr>returncode = 0, stdout = ''not json''\<rparr>"
        and loads = "Map.empty" and old = None, OF h2]
    by (simp add: prod_eq_iff)
qed

text \<open>
  C6. When the libraries before index \<open>i\<close> pass the checks and the library at index \<open>i\<close> does not
  (it has no license at all, or none that is permissible), the script exits with
  \<^verbatim>\<open>sys.exit(1)\<close> and the output file, whatever it was before (\<open>old\<close>), holds the header
  followed by the blocks of the libraries at the indices below \<open>i\<close>; for \<open>i = 0\<close> it holds the
  header alone. The file is modelled by what has been written to its handle, which the
  \<^verbatim>\<open>with\<close> block flushes on the way out.
\<close>

theorem main_partial_report:
  assumes "returncode result = 0" "loads (stdout result) = Some \<lparr>third_party_libraries = libs\<rparr>"
    and "i < length libs" "\<forall>j<i. has_license_in permissible_licenses (libs ! j)"
    and "\<not> has_license_in permissible_licenses (libs ! i)"
  shows "fst (main loads result old) = Some (SystemExit 1) \<and>
         out_file (snd (main loads result old)) =
           Some (report_header @ concat (map (library_block permissible_licenses) (take i libs))) \<and>
         (i = 0 \<longrightarrow> out_file (snd (main loads result old)) = Some report_header)"
proof (cases "licenses (libs ! i) = []")
  case True
  from main_no_licenses [of result loads, OF assms(1-4) True, of old]
  show ?thesis by simp
next
  case False
  from main_no_permissible [of result loads, OF assms(1-4) False assms(5), of old]
  show ?thesis by simp
qed

text \<open>The second of three libraries has no permissible license.\<close>

theorem main_partial_report_witness:
  "returncode tool_ok = 0 \<and>
   loads_to \<lparr>third_party_libraries = [lib_foo, lib_baz, lib_bar]\<rparr> (stdout tool_ok) =
     Some \<lparr>third_party_libraries = [lib_foo, lib_baz, lib_bar]\<rparr> \<and>
   (1::nat) < length [lib_foo, lib_baz, lib_bar] \<and>
   has_license_in permissible_licenses ([lib_foo, lib_baz, lib_bar] ! 0) \<and>
   \<not> has_license_in permissible_licenses ([lib_foo, lib_baz, lib_bar] ! 1) \<and>
   out_file (snd (main (loads_to \<lparr>third_party_libraries = [lib_foo, lib_baz, lib_bar]\<rparr>) tool_ok
     (Some ''old report''))) =
     Some ''# Thiard party library licenses\<newline>\<newline>## foo\<newline>\<newline>MIT\<newline>\<newline>MIT TEXT\<newline>\<newline>\<newline>''"
proof -
  let ?libs = "[lib_foo, lib_baz, lib_bar]"
  have h: "returncode tool_ok = 0"
    "loads_to \<lparr>third_party_libraries = ?libs\<rparr> (stdout tool_ok) =
       Some \<lparr>third_party_libraries = ?libs\<rparr>"
    "(1::nat) < length ?libs"
    "\<forall>j<1::nat. has_license_in permissible_licenses (?libs ! j)"
    "\<not> has_license_in permissible_licenses (?libs ! 1)"
    by (simp_all add: loads_to_def tool_ok_def lib_foo_def lib_bar_def lib_baz_def has_license_in_def
        permissible_licenses_def)
  show ?thesis
    using h main_partial_report [where loads = "loads_to \<lparr>third_party_libraries = ?libs\<rparr>"
        and result = tool_ok and i = 1 and old = "Some ''old report''", OF h]
    by (simp add: report_header_def library_block_def report_block_def permissible_licenses_def
        lib_foo_def has_license_in_def)
qed



text \<open>
  C8. When the run succeeds (exit status 0), the report is the header followed by the blocks of
  a list \<open>es\<close> of entries (package name, license, text) that has one entry for every library
  of the input, at the same index, with that library's package name: the package names of the
  report are those of the input, in the order of the input.
\<close>

theorem main_success_package_names:
  assumes "returncode result = 0" "loads (stdout result) = Some \<lparr>third_party_libraries = libs\<rparr>"
    and "exit_status (fst (main loads result old)) = 0"
  shows "\<exists>es. length es = length libs \<and>
           (\<forall>i<length libs. es ! i =
              (package_name (libs ! i), select_license permissible_licenses (licenses (libs ! i)))) \<and>
           map fst es = map package_name libs \<and>
           out_file (snd (main loads result old)) =
             Some (report_header @ concat (map (\<lambda>(name, lic, txt). report_block name lic txt) es))"
proof -
  let ?es = "map (\<lambda>lib. (package_name lib, select_license permissible_licenses (licenses lib))) libs"
  have all: "\<forall>lib\<in>set libs. has_license_in permissible_licenses lib"
    using assms by (rule main_exit_0)
  have eq: "map (\<lambda>(name, lic, txt). report_block name lic txt) ?es =
      map (library_block permissible_licenses) libs"
    by (simp add: library_block_def split_beta)
  have out: "out_file (snd (main loads result old)) =
      Some (report_header @ concat (map (library_block permissible_licenses) libs))"
    using main_all_permissible [of result loads, OF assms(1,2) all, of old] by simp
  have "out_file (snd (main loads result old)) =
      Some (report_header @ concat (map (\<lambda>(name, lic, txt). report_block name lic txt) ?es))"
    unfolding eq by (rule out)
  moreover have "length ?es = length libs" by simp
  moreover have "\<forall>i<length libs. ?es ! i =
      (package_name (libs ! i), select_license permissible_licenses (licenses (libs ! i)))"
    by simp
  moreover have "map fst ?es = map package_name libs"
    by simp
  ultimately show ?thesis by blast
qed

text \<open>Two libraries with an MIT license.\<close>

theorem main_success_package_names_witness:
  "returncode tool_ok = 0 \<and>
   exit_status (fst (main (loads_to \<lparr>third_party_libraries = [lib_foo, lib_foo\<lparr>package_name := ''qux''\<rparr>]\<rparr>)
     tool_ok None)) = 0 \<and>
   out_file (snd (main (loads_to \<lparr>third_party_libraries = [lib_foo, lib_foo\<lparr>package_name := ''qux''\<rparr>]\<rparr>)
     tool_ok None)) =
     Some (report_header @ report_block ''foo'' ''MIT'' ''MIT TEXT'' @
       report_block ''qux'' ''MIT'' ''MIT TEXT'')"
proof -
  let ?libs = "[lib_foo, lib_foo\<lparr>package_name := ''qux''\<rparr>]"
  have h: "returncode tool_ok = 0"
    "loads_to \<lparr>third_party_libraries = ?libs\<rparr> (stdout tool_ok) =
       Some \<lparr>third_party_libraries = ?libs\<rparr>"
    "exit_status (fst (main (loads_to \<lparr>third_party_libraries = ?libs\<rparr>) tool_ok None)) = 0"
    by (simp_all add: loads_to_def tool_ok_def lib_foo_def main_def write_report_def
        permissible_licenses_def f_write_def open_w_def)
  show ?thesis
    using h main_success_package_names [where loads = "loads_to \<lparr>third_party_libraries = ?libs\<rparr>"
        and result = tool_ok and old = None, OF h]
    by (simp add: loads_to_def tool_ok_def lib_foo_def main_def write_report_def
        permissible_licenses_def f_write_def open_w_def report_header_def report_block_def)
qed

text \<open>
  C10. When several licenses of a library carry the selected identifier, the loop takes
  \<open>l[0]\<close> of the filtered list: the first entry with that identifier in the library's own
  order, \<open>ls ! k\<close>, gives both \<^verbatim>\<open>package_license\<close> and \<^verbatim>\<open>license_text\<close>, which are what
  the block of the library carries. A later entry with the same identifier is ignored: giving
  it any other text leaves the result as it is.
\<close>

theorem select_license_first_entry:
  assumes "\<exists>e\<in>set ls. license e \<in> set ps"
  shows "\<exists>k<length ls.
           select_license ps ls = (license (ls ! k), text' (ls ! k)) \<and>
           license (ls ! k) \<in> set ps \<and>
           (\<forall>m<k. license (ls ! m) \<noteq> license (ls ! k)) \<and>
           (\<forall>m t. k < m \<and> m < length ls \<and> license (ls ! m) = license (ls ! k) \<longrightarrow>
              select_license ps (ls[m := (ls ! m)\<lparr>text' := t\<rparr>]) = select_license ps ls)"
proof -
  from select_license_match [OF assms] obtain i k where ik: "i < length ps" "k < length ls"
    "license (ls ! k) = ps ! i" "\<forall>m<k. license (ls ! m) \<noteq> ps ! i"
    "select_license ps ls = (license (ls ! k), text' (ls ! k))"
    by blast
  have "license (ls ! k) \<in> set ps"
    using ik(1,3) by simp
  moreover have "\<forall>m<k. license (ls ! m) \<noteq> license (ls ! k)"
    using ik(3,4) by simp
  moreover have "select_license ps (ls[m := (ls ! m)\<lparr>text' := t\<rparr>]) = select_license ps ls"
    if "k < m \<and> m < length ls \<and> license (ls ! m) = license (ls ! k)" for m t
    using that by (intro select_license_later_duplicate [of k]) simp_all
  ultimately show ?thesis
    using ik(2,5) by blast
qed

text \<open>Two MIT entries with different texts, after an entry that is not permissible.\<close>

theorem select_license_first_entry_witness:
  "(\<exists>e\<in>set [\<lparr>license = ''Apache-2.0'', text' = ''a''\<rparr>, \<lparr>license = ''MIT'', text' = ''first''\<rparr>,
              \<lparr>license = ''MIT'', text' = ''second''\<rparr>]. license e \<in> set permissible_licenses) \<and>
   select_license permissible_licenses
     [\<lparr>license = ''Apache-2.0'', text' = ''a''\<rparr>, \<lparr>license = ''MIT'', text' = ''first''\<rparr>,
      \<lparr>license = ''MIT'', text' = ''second''\<rparr>] = (''MIT'', ''first'') \<and>
   select_license permissible_licenses
     [\<lparr>license = ''Apache-2.0'', text' = ''a''\<rparr>, \<lparr>license = ''MIT'', text' = ''first''\<rparr>,
      \<lparr>license = ''MIT'', text' = ''other''\<rparr>] = (''MIT'', ''first'')"
proof -
  have h: "\<exists>e\<in>set [\<lparr>license = ''Apache-2.0'', text' = ''a''\<rparr>, \<lparr>license = ''MIT'', text' = ''first''\<rparr>,
              \<lparr>license = ''MIT'', text' = ''second''\<rparr>]. license e \<in> set permissible_licenses"
    by (simp add: permissible_licenses_def)
  show ?thesis
    using h select_license_first_entry [OF h] by (simp add: permissible_licenses_def)
qed

end
